theory Spec2Isabelle
  imports Complex_Main
begin

section \<open>Smart parking system: models of the source\<close>

text \<open>
  The Python sources are embedded function by function. Python integers are \<open>int\<close>,
  dictionaries whose iteration order matters are association lists, every \<open>raise\<close> is a
  value of a sum type, and whatever OpenCV, XGBoost or the clock hands to the code is an
  argument of the model.
\<close>

subsection \<open>Frame differencing: \<open>ParkingManager.detect_vehicles\<close>\<close>

text \<open>\<open>get_centroid\<close> of \<open>models/parking_manager.py\<close>; Python's \<open>//\<close> is floor division.\<close>

definition get_centroid :: "int \<Rightarrow> int \<Rightarrow> int \<Rightarrow> int \<Rightarrow> int \<times> int" where
  "get_centroid x y w h = (x + w div 2, y + h div 2)"

text \<open>
  The fields of \<open>ParkingManager\<close> that the vehicle counter reads and writes.
\<close>

record counter_state =
  matches :: "(int \<times> int) list"
  vehicle_counter :: int
  line_height :: int
  min_contour_width :: int
  min_contour_height :: int
  offset :: int

text \<open>
  The line that is drawn and tested: \<open>line_height\<close>, moved 50 pixels above the lower edge
  when it does not fit into a frame of \<open>frame_h\<close> rows.
\<close>

definition effective_line :: "int \<Rightarrow> counter_state \<Rightarrow> int" where
  "effective_line frame_h s =
     (if line_height s \<ge> frame_h then frame_h - 50 else line_height s)"

text \<open>
  The first loop: every contour whose bounding rectangle is large enough appends its
  centroid to \<open>matches\<close>.
\<close>

fun append_centroids ::
  "int \<Rightarrow> int \<Rightarrow> (int \<times> int \<times> int \<times> int) list \<Rightarrow> (int \<times> int) list \<Rightarrow> (int \<times> int) list" where
  "append_centroids mw mh [] ms = ms"
| "append_centroids mw mh ((x, y, w, h) # cs) ms =
     (if \<not> (w \<ge> mw \<and> h \<ge> mh) then append_centroids mw mh cs ms
      else append_centroids mw mh cs (ms @ [get_centroid x y w h]))"

text \<open>
  The second loop, with the counter and \<open>new_matches\<close> as accumulators. The test is the
  source's chained comparison \<open>(line_y - offset) < y < (line_y + offset)\<close>.
\<close>

fun crossing_loop ::
  "int \<Rightarrow> int \<Rightarrow> (int \<times> int) list \<Rightarrow> int \<Rightarrow> (int \<times> int) list \<Rightarrow> int \<times> (int \<times> int) list" where
  "crossing_loop line_y off [] cnt new_matches = (cnt, new_matches)"
| "crossing_loop line_y off ((x, y) # ms) cnt new_matches =
     (if line_y - off < y \<and> y < line_y + off
      then crossing_loop line_y off ms (cnt + 1) new_matches
      else crossing_loop line_y off ms cnt (new_matches @ [(x, y)]))"

text \<open>
  \<open>detect_vehicles\<close>: \<open>frame_h\<close> is the height of \<open>frame1\<close> and \<open>rects\<close> are the bounding
  rectangles of the contours OpenCV finds in the difference of the two frames, in order.
\<close>

definition detect_vehicles ::
  "int \<Rightarrow> (int \<times> int \<times> int \<times> int) list \<Rightarrow> counter_state \<Rightarrow> counter_state" where
  "detect_vehicles frame_h rects s =
     (let line_y = effective_line frame_h s;
          ms = append_centroids (min_contour_width s) (min_contour_height s) rects (matches s);
          (cnt, new_matches) = crossing_loop line_y (offset s) ms (vehicle_counter s) []
      in s\<lparr>matches := new_matches, vehicle_counter := cnt\<rparr>)"

text \<open>The band as the specification words it: a closed interval around \<open>lineHeight\<close>.\<close>

definition spec_in_band :: "int \<Rightarrow> int \<Rightarrow> int \<Rightarrow> bool" where
  "spec_in_band lh off y = (lh - off \<le> y \<and> y \<le> lh + off)"

text \<open>The band as the source tests it: both ends excluded.\<close>

definition in_open_band :: "int \<Rightarrow> int \<Rightarrow> int \<times> int \<Rightarrow> bool" where
  "in_open_band line_y off p = (line_y - off < snd p \<and> snd p < line_y + off)"

definition valid_centroids ::
  "int \<Rightarrow> int \<Rightarrow> (int \<times> int \<times> int \<times> int) list \<Rightarrow> (int \<times> int) list" where
  "valid_centroids mw mh rects =
     map (\<lambda>(x, y, w, h). get_centroid x y w h)
       (filter (\<lambda>(x, y, w, h). w \<ge> mw \<and> h \<ge> mh) rects)"


subsection \<open>Detector and association: \<open>VehicleTracker\<close>\<close>

text \<open>
  An exception is a value. What was raised does not matter to any handler of the modelled
  code (each is \<open>except Exception\<close>), so one constructor is enough.
\<close>

datatype py_exception = Exception

text \<open>One entry of \<open>tracked_vehicles\<close>; \<open>first_seen\<close> is the clock's reading.\<close>

record tracked_vehicle =
  positions :: "(int \<times> int) list"
  counted :: bool
  class_id :: int
  first_seen :: int

record tracker_state =
  tracked_vehicles :: "int \<rightharpoonup> tracked_vehicle"
  vehicle_count :: int

text \<open>A track as the associator returns it: \<open>(track_id, (x1, y1, x2, y2), class_id)\<close>.\<close>

type_synonym track = "int \<times> (int \<times> int \<times> int \<times> int) \<times> int"

text \<open>
  The first half of the loop body of \<open>_process_tracks\<close>: a new identity gets a fresh
  entry, a known one gets the centroid appended, and \<open>positions[-30:]\<close> keeps the last 30.
\<close>

definition record_position ::
  "int \<Rightarrow> (int \<rightharpoonup> tracked_vehicle) \<Rightarrow> track \<Rightarrow> tracked_vehicle" where
  "record_position now tv tr =
     (case tr of (track_id, (x1, y1, x2, y2), cls) \<Rightarrow>
        let centroid_x = (x1 + x2) div 2;
            centroid_y = (y1 + y2) div 2
        in case tv track_id of
             None \<Rightarrow> \<lparr>positions = [(centroid_x, centroid_y)], counted = False,
                       class_id = cls, first_seen = now\<rparr>
           | Some v0 \<Rightarrow>
               (let ps = positions v0 @ [(centroid_x, centroid_y)]
                in v0\<lparr>positions :=
                     (if length ps > 30 then drop (length ps - 30) ps else ps)\<rparr>))"

text \<open>
  The second half: the crossing test on the last two positions, made only for an entry
  that is not yet counted and only when there are two positions.
\<close>

definition track_step ::
  "int \<Rightarrow> int \<Rightarrow> int \<Rightarrow> (int \<rightharpoonup> tracked_vehicle) \<times> int \<Rightarrow> track
     \<Rightarrow> (int \<rightharpoonup> tracked_vehicle) \<times> int" where
  "track_step now line_h off st tr =
     (let tv = fst st; vc = snd st; track_id = fst tr;
          v = record_position now tv tr
      in if \<not> counted v then
           (if length (positions v) \<ge> 2 then
              (let prev_y = snd (positions v ! (length (positions v) - 2));
                   curr_y = snd (positions v ! (length (positions v) - 1))
               in if prev_y < line_h - off \<and> curr_y > line_h + off
                  then (tv(track_id \<mapsto> v\<lparr>counted := True\<rparr>), vc + 1)
                  else (tv(track_id \<mapsto> v), vc))
            else (tv(track_id \<mapsto> v), vc))
         else (tv(track_id \<mapsto> v), vc))"

text \<open>
  \<open>_process_tracks\<close> starts from \<open>self.vehicle_count\<close>, mutates \<open>tracked_vehicles\<close> in
  place and returns the new count. Drawing on the frame has no effect on the state.
\<close>

definition process_tracks ::
  "int \<Rightarrow> track list \<Rightarrow> int \<Rightarrow> int \<Rightarrow> tracker_state \<Rightarrow> (int \<rightharpoonup> tracked_vehicle) \<times> int" where
  "process_tracks now tracks line_h off s =
     fold (\<lambda>tr st. track_step now line_h off st tr) tracks
       (tracked_vehicles s, vehicle_count s)"

text \<open>
  What one call of \<open>process_frame\<close> receives: whether the frame is usable, what the detector
  followed by the associator returned (or that one of them raised), the optional
  \<open>line_height\<close>, the \<open>offset\<close> and the time.
\<close>

record frame_input =
  frame_ok :: bool
  tracks_result :: "py_exception + track list"
  f_line_height :: "int option"
  f_offset :: int
  f_time :: int

definition process_frame :: "frame_input \<Rightarrow> tracker_state \<Rightarrow> tracker_state" where
  "process_frame fr s =
     (if \<not> frame_ok fr then s
      else case tracks_result fr of
             Inl e \<Rightarrow> s
           | Inr tracks \<Rightarrow>
               (case f_line_height fr of
                  None \<Rightarrow> s
                | Some line_h \<Rightarrow>
                    (case process_tracks (f_time fr) tracks line_h (f_offset fr) s of
                       (tv, vc) \<Rightarrow> s\<lparr>tracked_vehicles := tv, vehicle_count := vc\<rparr>)))"

definition reset_count :: "tracker_state \<Rightarrow> tracker_state" where
  "reset_count s = s\<lparr>vehicle_count := 0, tracked_vehicles := Map.empty\<rparr>"

text \<open>A session without a reset: the frames in order.\<close>

definition process_frames :: "frame_input list \<Rightarrow> tracker_state \<Rightarrow> tracker_state" where
  "process_frames frs s = fold process_frame frs s"

text \<open>Whether a track identity is known and marked as counted.\<close>

definition is_counted :: "tracker_state \<Rightarrow> int \<Rightarrow> bool" where
  "is_counted s i = (case tracked_vehicles s i of None \<Rightarrow> False | Some v \<Rightarrow> counted v)"

text \<open>The track identities a frame, and a run of frames, mention.\<close>

definition frame_ids :: "frame_input \<Rightarrow> int list" where
  "frame_ids fr = (case tracks_result fr of Inl e \<Rightarrow> [] | Inr tracks \<Rightarrow> map fst tracks)"

definition run_ids :: "frame_input list \<Rightarrow> int list" where
  "run_ids frs = concat (map frame_ids frs)"

subsection \<open>Frames, dictionaries and the records of \<open>parking_data\<close>\<close>

text \<open>
  A processed frame is a two-dimensional array of bytes: \<open>shape0\<close> rows, \<open>shape1\<close> columns
  and the value at each row and column.
\<close>

record image =
  shape0 :: nat
  shape1 :: nat
  pixel :: "nat \<Rightarrow> nat \<Rightarrow> nat"

text \<open>
  The indices a Python slice \<open>a[start:stop]\<close> selects on an axis of length \<open>n\<close>: a negative
  bound counts from the end, and both bounds are clipped to the axis. A slice never raises.
\<close>

definition slice_bound :: "nat \<Rightarrow> int \<Rightarrow> nat" where
  "slice_bound n i = (if i < 0 then nat (max 0 (i + int n)) else min (nat i) n)"

definition slice_indices :: "nat \<Rightarrow> int \<Rightarrow> int \<Rightarrow> nat list" where
  "slice_indices n start stop = [slice_bound n start ..< slice_bound n stop]"

text \<open>\<open>cv2.countNonZero(img_pro[y:y + h, x:x + w])\<close>: an exact count over the crop.\<close>

definition count_non_zero :: "image \<Rightarrow> int \<Rightarrow> int \<Rightarrow> int \<Rightarrow> int \<Rightarrow> int" where
  "count_non_zero img x y w h =
     int (length (filter (\<lambda>(r, c). pixel img r c \<noteq> 0)
       (List.product (slice_indices (shape0 img) y (y + h))
                     (slice_indices (shape1 img) x (x + w)))))"

text \<open>The guard every pass puts in front of the crop.\<close>

definition within_bounds :: "image \<Rightarrow> int \<times> int \<times> int \<times> int \<Rightarrow> bool" where
  "within_bounds img pos =
     (case pos of (x, y, w, h) \<Rightarrow>
        y \<ge> 0 \<and> y + h < int (shape0 img) \<and> x \<ge> 0 \<and> x + w < int (shape1 img))"

text \<open>
  A dictionary that is iterated is a list of pairs in insertion order: assigning to a
  present key keeps its place, assigning to a new key appends.
\<close>

fun dict_set :: "string \<Rightarrow> 'v \<Rightarrow> (string \<times> 'v) list \<Rightarrow> (string \<times> 'v) list" where
  "dict_set k v [] = [(k, v)]"
| "dict_set k v ((k', v') # d) = (if k' = k then (k, v) # d else (k', v') # dict_set k v d)"

text \<open>
  One value of \<open>parking_data\<close>. Keys that only some writers set are optional:
  \<open>distance_to_entrance\<close> is missing on group entries and \<open>member_spaces\<close> on space
  entries; \<open>is_group\<close>, \<open>manually_set\<close> and \<open>in_group\<close> are read with a default of false;
  \<open>section_tag\<close> is the key \<open>'section'\<close>.
  Times are microseconds on the clock.
\<close>

record entry =
  position :: "int \<times> int \<times> int \<times> int"
  occupied :: bool
  vehicle_id :: "string option"
  last_state_change :: int
  distance_to_entrance :: "int option"
  section_tag :: string
  in_group :: bool
  group_id :: "string option"
  is_group :: bool
  member_spaces :: "nat list option"
  manually_set :: bool

text \<open>
  The fields of \<open>ParkingManager\<close> behind loading and classification. The type of a
  position is a parameter: the loader admits tuples of integers or floats, the classifier
  slices the frame with them and so works on integers.
\<close>

record 'p parking_manager =
  posList :: "'p list"
  total_spaces :: int
  free_spaces :: int
  occupied_spaces :: int
  parking_threshold :: int
  parking_data :: "(string \<times> entry) list"

type_synonym rect = "int \<times> int \<times> int \<times> int"

text \<open>\<open>str(n)\<close> for a natural number, for the identifiers \<open>f"S{i + 1}-{section}"\<close>.\<close>

fun str_nat :: "nat \<Rightarrow> string" where
  "str_nat n =
     (if n < 10 then [''0123456789'' ! n]
      else str_nat (n div 10) @ [''0123456789'' ! (n mod 10)])"

text \<open>
  The quadrant of a corner and the identifier of the space at index \<open>i\<close>; the comparison
  with half of the frame is made on the true quotient, as \<open>x < img_pro.shape[1] / 2\<close> is.
\<close>

definition section_of :: "image \<Rightarrow> int \<Rightarrow> int \<Rightarrow> string" where
  "section_of img x y =
     (if rat_of_int x < rat_of_nat (shape1 img) / 2 then ''A'' else ''B'')
     @ (if rat_of_int y < rat_of_nat (shape0 img) / 2 then ''1'' else ''2'')"

definition space_id_of :: "image \<Rightarrow> nat \<Rightarrow> rect \<Rightarrow> string" where
  "space_id_of img i pos =
     (case pos of (x, y, w, h) \<Rightarrow> ''S'' @ str_nat (i + 1) @ ''-'' @ section_of img x y)"

subsection \<open>Occupancy: \<open>ParkingManager.check_parking_space\<close>\<close>

text \<open>
  What the pass draws for one space it evaluates: the rectangle, whether it is shown as
  free, and the count written into it.
\<close>

record annotation =
  a_rect :: rect
  a_free :: bool
  a_count :: int

text \<open>
  The loop of \<open>check_parking_space\<close> with \<open>space_counter\<close> and the drawn annotations as
  accumulators. A space that fails the guard is passed over.
\<close>

fun check_loop ::
  "image \<Rightarrow> int \<Rightarrow> rect list \<Rightarrow> int \<Rightarrow> annotation list \<Rightarrow> int \<times> annotation list" where
  "check_loop img thr [] space_counter drawn = (space_counter, drawn)"
| "check_loop img thr ((x, y, w, h) # ps) space_counter drawn =
     (if within_bounds img (x, y, w, h) then
        (let count = count_non_zero img x y w h
         in if count < thr
            then check_loop img thr ps (space_counter + 1)
                   (drawn @ [\<lparr>a_rect = (x, y, w, h), a_free = True, a_count = count\<rparr>])
            else check_loop img thr ps space_counter
                   (drawn @ [\<lparr>a_rect = (x, y, w, h), a_free = False, a_count = count\<rparr>]))
      else check_loop img thr ps space_counter drawn)"

definition check_parking_space ::
  "image \<Rightarrow> rect parking_manager \<Rightarrow> annotation list \<times> rect parking_manager" where
  "check_parking_space img_pro s =
     (case check_loop img_pro (parking_threshold s) (posList s) 0 [] of
        (space_counter, drawn) \<Rightarrow>
          (drawn, s\<lparr>free_spaces := space_counter,
                    occupied_spaces := total_spaces s - space_counter\<rparr>))"



subsection \<open>Groups: \<open>ParkingManager.process_group_status\<close>\<close>

text \<open>
  The inner loop over \<open>member_spaces\<close> with \<open>occupied_count\<close> as accumulator. A member
  index beyond \<open>posList\<close> and a member outside the guard are passed over, yet both still
  count in \<open>total_members\<close>.
\<close>

fun count_members :: "image \<Rightarrow> rect parking_manager \<Rightarrow> nat list \<Rightarrow> int \<Rightarrow> int" where
  "count_members img s [] occupied_count = occupied_count"
| "count_members img s (i # members) occupied_count =
     (if i < length (posList s) then
        (case posList s ! i of (x, y, w, h) \<Rightarrow>
           if within_bounds img (x, y, w, h) then
             (if count_non_zero img x y w h \<ge> parking_threshold s
              then count_members img s members (occupied_count + 1)
              else count_members img s members occupied_count)
           else count_members img s members occupied_count)
      else count_members img s members occupied_count)"

text \<open>
  The body of the outer loop on one value of the dictionary: only a group entry with at
  least one member is touched, and only its \<open>occupied\<close> key. The test is
  \<open>occupied_count > (total_members / 2)\<close> with Python's true division.
\<close>

definition group_status :: "image \<Rightarrow> rect parking_manager \<Rightarrow> entry \<Rightarrow> entry" where
  "group_status img s data =
     (if is_group data then
        (case member_spaces data of
           None \<Rightarrow> data
         | Some members \<Rightarrow>
             (let total_members = length members
              in if total_members = 0 then data
                 else (let occupied_count = count_members img s members 0;
                           is_group_occupied =
                             (rat_of_int occupied_count > rat_of_nat total_members / 2)
                       in data\<lparr>occupied := is_group_occupied\<rparr>)))
      else data)"

definition process_group_status :: "image \<Rightarrow> rect parking_manager \<Rightarrow> rect parking_manager" where
  "process_group_status img_pro s =
     s\<lparr>parking_data := map (\<lambda>(space_id, data). (space_id, group_status img_pro s data))
                           (parking_data s)\<rparr>"

text \<open>How the pass classifies one member index.\<close>

definition member_occupied :: "image \<Rightarrow> rect parking_manager \<Rightarrow> nat \<Rightarrow> bool" where
  "member_occupied img s i =
     (i < length (posList s) \<and> within_bounds img (posList s ! i)
      \<and> (case posList s ! i of (x, y, w, h) \<Rightarrow>
           count_non_zero img x y w h \<ge> parking_threshold s))"

subsection \<open>Space records: \<open>ParkingManager.update_individual_slots_in_groups\<close>\<close>

text \<open>
  The first pass. \<open>now\<close> is what \<open>datetime.now()\<close> returns; it is stored only when an
  entry is created.
\<close>

fun slots_loop ::
  "image \<Rightarrow> int \<Rightarrow> int \<Rightarrow> nat \<Rightarrow> rect list \<Rightarrow> (string \<times> entry) list \<Rightarrow> (string \<times> entry) list" where
  "slots_loop img thr now i [] pd = pd"
| "slots_loop img thr now i ((x, y, w, h) # ps) pd =
     (let sec = section_of img x y;
          space_id = space_id_of img i (x, y, w, h)
      in if within_bounds img (x, y, w, h) then
           (let count = count_non_zero img x y w h;
                is_occupied = (count \<ge> thr)
            in case map_of pd space_id of
                 None \<Rightarrow>
                   slots_loop img thr now (Suc i) ps
                     (dict_set space_id
                        \<lparr>position = (x, y, w, h), occupied = is_occupied, vehicle_id = None,
                         last_state_change = now, distance_to_entrance = Some (x + y),
                         section_tag = sec, in_group = False, group_id = None,
                         is_group = False, member_spaces = None, manually_set = False\<rparr> pd)
               | Some data \<Rightarrow>
                   (if \<not> manually_set data
                    then slots_loop img thr now (Suc i) ps
                           (dict_set space_id (data\<lparr>occupied := is_occupied\<rparr>) pd)
                    else slots_loop img thr now (Suc i) ps pd))
         else slots_loop img thr now (Suc i) ps pd)"

text \<open>The second pass marks the members of every group entry of the snapshot.\<close>

fun mark_members ::
  "image \<Rightarrow> rect list \<Rightarrow> string \<Rightarrow> nat list \<Rightarrow> (string \<times> entry) list \<Rightarrow> (string \<times> entry) list" where
  "mark_members img ps gid [] pd = pd"
| "mark_members img ps gid (i # members) pd =
     (if i < length ps then
        (let space_id = space_id_of img i (ps ! i)
         in case map_of pd space_id of
              None \<Rightarrow> mark_members img ps gid members pd
            | Some data \<Rightarrow>
                mark_members img ps gid members
                  (dict_set space_id (data\<lparr>in_group := True, group_id := Some gid\<rparr>) pd))
      else mark_members img ps gid members pd)"

fun mark_groups ::
  "image \<Rightarrow> rect list \<Rightarrow> (string \<times> entry) list \<Rightarrow> (string \<times> entry) list \<Rightarrow> (string \<times> entry) list" where
  "mark_groups img ps [] pd = pd"
| "mark_groups img ps ((gid, data) # snapshot) pd =
     (if is_group data then
        (case member_spaces data of
           None \<Rightarrow> mark_groups img ps snapshot pd
         | Some members \<Rightarrow> mark_groups img ps snapshot (mark_members img ps gid members pd))
      else mark_groups img ps snapshot pd)"

definition update_individual_slots_in_groups ::
  "image \<Rightarrow> int \<Rightarrow> rect parking_manager \<Rightarrow> rect parking_manager" where
  "update_individual_slots_in_groups img_pro now s =
     (let pd1 = slots_loop img_pro (parking_threshold s) now 0 (posList s) (parking_data s);
          pd2 = mark_groups img_pro (posList s) pd1 pd1
      in s\<lparr>parking_data := pd2\<rparr>)"

text \<open>
  One detection pass, \<open>update_allocation_status\<close>: the counters, the space records, the
  group records.
\<close>

definition update_allocation_status ::
  "image \<Rightarrow> int \<Rightarrow> rect parking_manager \<Rightarrow> rect parking_manager" where
  "update_allocation_status img_pro now s =
     process_group_status img_pro
       (update_individual_slots_in_groups img_pro now (snd (check_parking_space img_pro s)))"

subsection \<open>The sibling: \<open>ParkingVisualizer.update_parking_status\<close>\<close>

text \<open>
  The keys of a visualizer entry that the update touches; a history entry is the time
  and whether the new state is occupied (its duration is computed after the time stamp
  was overwritten and is always zero).
\<close>

record vis_entry =
  v_occupied :: bool
  v_vehicle_id :: "string option"
  v_last_state_change :: int
  v_occupation_history :: "(int \<times> bool) list"

fun update_parking_status ::
  "int \<Rightarrow> (string \<times> bool) list \<Rightarrow> (string \<rightharpoonup> vis_entry) \<Rightarrow> (string \<rightharpoonup> vis_entry)" where
  "update_parking_status current_time [] pd = pd"
| "update_parking_status current_time ((space_id, is_occupied) # rest) pd =
     (case pd space_id of
        None \<Rightarrow> update_parking_status current_time rest pd
      | Some data \<Rightarrow>
          (let d1 = (if v_occupied data \<noteq> is_occupied
                     then data\<lparr>v_last_state_change := current_time,
                               v_occupation_history :=
                                 v_occupation_history data @ [(current_time, is_occupied)]\<rparr>
                     else data);
               d2 = d1\<lparr>v_occupied := is_occupied\<rparr>;
               d3 = (if \<not> is_occupied then d2\<lparr>v_vehicle_id := None\<rparr> else d2)
           in update_parking_status current_time rest (pd(space_id \<mapsto> d3))))"

text \<open>
  A lot of four spaces on the 10 by 10 frame: two over the set columns, two over the
  clear ones, with threshold 5.
\<close>

definition lot4 :: "rect parking_manager" where
  "lot4 = \<lparr>posList = [(0, 0, 3, 3), (0, 4, 3, 3), (5, 0, 3, 3), (5, 4, 3, 3)],
     total_spaces = 4, free_spaces = 0, occupied_spaces = 4, parking_threshold = 5,
     parking_data = []\<rparr>"

definition group_of :: "nat list \<Rightarrow> entry" where
  "group_of members = \<lparr>position = (0, 0, 8, 7), occupied = False, vehicle_id = None,
     last_state_change = 0, distance_to_entrance = None, section_tag = ''G'',
     in_group = False, group_id = None, is_group = True, member_spaces = Some members,
     manually_set = False\<rparr>"

definition free_space :: entry where
  "free_space = \<lparr>position = (0, 0, 3, 3), occupied = False, vehicle_id = None,
     last_state_change = 0, distance_to_entrance = Some 0, section_tag = ''A1'',
     in_group = False, group_id = None, is_group = False, member_spaces = None,
     manually_set = False\<rparr>"

subsection \<open>Allocation: \<open>ParkingAllocationEngine\<close>\<close>

text \<open>
  Floating-point numbers of the engine (scores, rates, minutes, the weight) are modelled
  as exact rationals. The model object, its \<open>predict_proba\<close> and \<open>fit\<close> and the pickling of
  the model belong to XGBoost and to the file system: they are arguments of the
  embedding, and each of them may raise.
\<close>

record 'm learner =
  predict_proba :: "'m \<Rightarrow> rat list list \<Rightarrow> py_exception + rat list"
  fit :: "'m \<Rightarrow> rat list list \<Rightarrow> int list \<Rightarrow> py_exception + 'm"
  pickle_dump :: "'m \<Rightarrow> py_exception + 'm"

record allocation =
  al_timestamp :: int
  al_space_id :: string
  al_vehicle_size :: int
  al_score :: rat
  al_features :: "rat list"

record feedback =
  fb_timestamp :: int
  fb_space_id :: string
  fb_section :: string
  fb_vehicle_size :: int
  fb_features :: "rat list"
  fb_successful :: int

record section_stats =
  st_total :: int
  st_occupied :: int
  st_occupancy_rate :: rat

text \<open>
  The engine: \<open>model_file\<close> is what is pickled at \<open>model_path\<close>, \<open>lock_held\<close> is the state
  of \<open>self.lock\<close> (a \<open>threading.Lock\<close>, which is not reentrant) and \<open>printed\<close> is what was
  printed.
\<close>

record 'm engine =
  model :: 'm
  model_file :: "'m option"
  allocation_history :: "allocation list"
  feedback_data :: "feedback list"
  parking_stats :: "string \<rightharpoonup> section_stats"
  load_balancing_weight :: rat
  lock_held :: bool
  printed :: "string list"

text \<open>
  How a call ends: it returns a value, it raises to its caller, or it never returns
  because it waits for a lock that its own thread holds.
\<close>

datatype 'a outcome = Returns 'a | Raises py_exception | Blocks

text \<open>\<open>__init__\<close> with a model that was loaded or created.\<close>

definition init_engine :: "'m \<Rightarrow> 'm engine" where
  "init_engine m = \<lparr>model = m, model_file = Some m, allocation_history = [],
     feedback_data = [], parking_stats = Map.empty, load_balancing_weight = 3 / 10,
     lock_held = False, printed = []\<rparr>"

text \<open>\<open>str.split\<close> with a separator, and \<open>get_section_from_space_id\<close>.\<close>

fun split_on :: "char \<Rightarrow> string \<Rightarrow> string list" where
  "split_on c [] = [[]]"
| "split_on c (x # xs) =
     (if x = c then [] # split_on c xs
      else (case split_on c xs of [] \<Rightarrow> [[x]] | p # ps \<Rightarrow> (x # p) # ps))"

definition get_section_from_space_id :: "string \<Rightarrow> string" where
  "get_section_from_space_id space_id =
     (let parts = split_on (CHR ''-'') space_id
      in if length parts > 1 then parts ! 1 else ''A'')"

text \<open>The first loop of \<open>update_parking_stats\<close>: totals and occupied counts by section.\<close>

fun count_sections ::
  "(string \<times> entry) list \<Rightarrow> (string \<rightharpoonup> int \<times> int) \<Rightarrow> (string \<rightharpoonup> int \<times> int)" where
  "count_sections [] sections = sections"
| "count_sections ((space_id, data) # rest) sections =
     (let sec = get_section_from_space_id space_id;
          s1 = (case sections sec of None \<Rightarrow> sections(sec \<mapsto> (0, 0)) | Some c \<Rightarrow> sections);
          s2 = (case s1 sec of None \<Rightarrow> s1 | Some (t, oc) \<Rightarrow> s1(sec \<mapsto> (t + 1, oc)));
          s3 = (if occupied data
                then (case s2 sec of None \<Rightarrow> s2 | Some (t, oc) \<Rightarrow> s2(sec \<mapsto> (t, oc + 1)))
                else s2)
      in count_sections rest s3)"

text \<open>
  The second loop writes one entry of \<open>parking_stats\<close> for each counted section and
  leaves the entries of other sections as they were.
\<close>

definition write_stats ::
  "(string \<rightharpoonup> int \<times> int) \<Rightarrow> (string \<rightharpoonup> section_stats) \<Rightarrow> (string \<rightharpoonup> section_stats)" where
  "write_stats sections stats =
     (\<lambda>sec. case sections sec of
               None \<Rightarrow> stats sec
             | Some (t, oc) \<Rightarrow>
                 Some \<lparr>st_total = t, st_occupied = oc,
                       st_occupancy_rate =
                         (if t > 0 then rat_of_int oc / rat_of_int t else 0)\<rparr>)"

definition update_parking_stats ::
  "(string \<times> entry) list \<Rightarrow> 'm engine \<Rightarrow> unit outcome \<times> 'm engine" where
  "update_parking_stats spaces_data e =
     (if lock_held e then (Blocks, e)
      else (Returns (),
            e\<lparr>parking_stats := write_stats (count_sections spaces_data Map.empty)
                                   (parking_stats e)\<rparr>))"

text \<open>
  \<open>initialize_parking_spaces\<close> takes the lock and calls \<open>update_parking_stats\<close>, which takes
  it again.
\<close>

definition initialize_parking_spaces ::
  "(string \<times> entry) list \<Rightarrow> 'm engine \<Rightarrow> unit outcome \<times> 'm engine" where
  "initialize_parking_spaces spaces_data e =
     (if lock_held e then (Blocks, e)
      else (case update_parking_stats spaces_data (e\<lparr>lock_held := True\<rparr>) of
              (Returns u, e1) \<Rightarrow> (Returns (), e1\<lparr>lock_held := False\<rparr>)
            | (Raises x, e1) \<Rightarrow> (Raises x, e1\<lparr>lock_held := False\<rparr>)
            | (Blocks, e1) \<Rightarrow> (Blocks, e1)))"









text \<open>
  \<open>_retrain_model\<close>: nothing to do on an empty buffer; otherwise it takes the lock. A
  failure of \<open>fit\<close> or of the dump is caught and printed; the buffer is cleared only on
  the path without a failure. \<open>fit\<close> changes the model object itself, so a dump that fails
  leaves the new model in memory and the old one on disk.
\<close>

definition retrain_model :: "'m learner \<Rightarrow> 'm engine \<Rightarrow> unit outcome \<times> 'm engine" where
  "retrain_model lr e =
     (if feedback_data e = [] then (Returns (), e)
      else if lock_held e then (Blocks, e)
      else (let features_list = map (\<lambda>f. take 3 (fb_features f)) (feedback_data e);
                labels = map fb_successful (feedback_data e)
            in case fit lr (model e) features_list labels of
                 Inl x \<Rightarrow>
                   (Returns (), e\<lparr>printed := printed e @ [''Error retraining model'']\<rparr>)
               | Inr m \<Rightarrow>
                   (case pickle_dump lr m of
                      Inl x \<Rightarrow>
                        (Returns (),
                         e\<lparr>model := m, printed := printed e @ [''Error retraining model'']\<rparr>)
                    | Inr blob \<Rightarrow>
                        (Returns (),
                         e\<lparr>model := m, model_file := Some blob, feedback_data := [],
                           printed := printed e
                             @ [''Model retrained with new feedback data'']\<rparr>))))"

text \<open>
  \<open>add_feedback\<close> holds the lock for its whole body, the call of \<open>_retrain_model\<close>
  included. The history is searched from the newest entry.
\<close>

definition add_feedback ::
  "'m learner \<Rightarrow> int \<Rightarrow> string \<Rightarrow> int \<Rightarrow> bool \<Rightarrow> 'm engine \<Rightarrow> unit outcome \<times> 'm engine" where
  "add_feedback lr now space_id vehicle_size successful e =
     (if lock_held e then (Blocks, e)
      else (let e1 = e\<lparr>lock_held := True\<rparr>;
                sec = get_section_from_space_id space_id
            in case find (\<lambda>entry. al_space_id entry = space_id) (rev (allocation_history e1)) of
                 None \<Rightarrow> (Returns (), e1\<lparr>lock_held := False\<rparr>)
               | Some al \<Rightarrow>
                   (let fb = \<lparr>fb_timestamp = now, fb_space_id = space_id, fb_section = sec,
                              fb_vehicle_size = vehicle_size, fb_features = al_features al,
                              fb_successful = (if successful then 1 else 0)\<rparr>;
                        e2 = e1\<lparr>feedback_data := feedback_data e1 @ [fb]\<rparr>
                    in if length (feedback_data e2) \<ge> 10 then
                         (case retrain_model lr e2 of
                            (Returns u, e3) \<Rightarrow> (Returns (), e3\<lparr>lock_held := False\<rparr>)
                          | (Raises x, e3) \<Rightarrow> (Raises x, e3\<lparr>lock_held := False\<rparr>)
                          | (Blocks, e3) \<Rightarrow> (Blocks, e3))
                       else (Returns (), e2\<lparr>lock_held := False\<rparr>))))"

text \<open>
  A caller that records feedback for the same space again and again; it goes on only
  while the calls return.
\<close>

fun add_feedback_times ::
  "nat \<Rightarrow> 'm learner \<Rightarrow> string \<Rightarrow> 'm engine \<Rightarrow> unit outcome \<times> 'm engine" where
  "add_feedback_times 0 lr space_id e = (Returns (), e)"
| "add_feedback_times (Suc n) lr space_id e =
     (case add_feedback_times n lr space_id e of
        (Returns u, e1) \<Rightarrow> add_feedback lr 0 space_id 1 True e1
      | (Raises x, e1) \<Rightarrow> (Raises x, e1)
      | (Blocks, e1) \<Rightarrow> (Blocks, e1))"

text \<open>
  Learners for concrete runs: the model is a number, every row gets the score one half,
  fitting adds one to the model; the broken one raises on prediction and on fitting.
\<close>

definition flat_learner :: "nat learner" where
  "flat_learner = \<lparr>predict_proba = (\<lambda>m rows. Inr (map (\<lambda>r. 1 / 2) rows)),
     fit = (\<lambda>m rows labels. Inr (Suc m)), pickle_dump = (\<lambda>m. Inr m)\<rparr>"




text \<open>An engine that has allocated the space \<open>S1-A\<close> once.\<close>

definition engine_with_history :: "nat engine" where
  "engine_with_history = (init_engine 0)
     \<lparr>allocation_history := [\<lparr>al_timestamp = 0, al_space_id = ''S1-A'', al_vehicle_size = 1,
        al_score = 1 / 2, al_features = [1, 0, 1]\<rparr>]\<rparr>"







text \<open>The lot with a free space record and a group record that predate the pass.\<close>

definition lot4_tracked :: "rect parking_manager" where
  "lot4_tracked = lot4\<lparr>parking_data := [(''S1-A1'', free_space), (''Group_1'', group_of [0, 1, 2])]\<rparr>"

text \<open>
  Every key of the first dictionary is a key of the second with the same
  \<open>last_state_change\<close>.
\<close>

definition stamp_kept :: "(string \<times> entry) list \<Rightarrow> (string \<times> entry) list \<Rightarrow> bool" where
  "stamp_kept pd pd' =
     (\<forall>k d. map_of pd k = Some d \<longrightarrow>
        (\<exists>d'. map_of pd' k = Some d' \<and> last_state_change d' = last_state_change d))"

text \<open>A frame of 10 by 10 pixels whose four leftmost columns are set.\<close>

definition frame10 :: image where
  "frame10 = \<lparr>shape0 = 10, shape1 = 10, pixel = (\<lambda>r c. if c < 4 then 255 else 0)\<rparr>"

text \<open>The same reading of the flag on the dictionary alone.\<close>

definition flag_of :: "(int \<rightharpoonup> tracked_vehicle) \<Rightarrow> int \<Rightarrow> bool" where
  "flag_of tv i = (case tv i of None \<Rightarrow> False | Some v \<Rightarrow> counted v)"

text \<open>
  A concrete session: identity 7 moves from \<open>y = 300\<close> to \<open>y = 500\<close> across the line at 400,
  then goes back above the line and comes down again.
\<close>

definition frame_at :: "int \<Rightarrow> frame_input" where
  "frame_at y = \<lparr>frame_ok = True, tracks_result = Inr [(7, (0, y - 10, 20, y + 10), 3)],
     f_line_height = Some 400, f_offset = 10, f_time = 0\<rparr>"

definition tracker0 :: tracker_state where
  "tracker0 = \<lparr>tracked_vehicles = Map.empty, vehicle_count = 0\<rparr>"

section \<open>Properties\<close>

subsection \<open>Frame differencing\<close>

lemma append_centroids_eq:
  "append_centroids mw mh rects ms = ms @ valid_centroids mw mh rects"
  by (induction mw mh rects ms rule: append_centroids.induct)
     (simp_all add: valid_centroids_def)

lemma crossing_loop_eq:
  "crossing_loop line_y off ms cnt new =
     (cnt + int (length (filter (in_open_band line_y off) ms)),
      new @ filter (\<lambda>p. \<not> in_open_band line_y off p) ms)"
  by (induction line_y off ms cnt new rule: crossing_loop.induct)
     (simp_all add: in_open_band_def)

text \<open>
  C5, as stated, fails at the ends of the band: with the line at 400 and offset 10 a
  centroid at \<open>y = 390\<close> lies in the closed interval of the claim, yet it is neither counted
  nor dropped.
\<close>

theorem detect_vehicles_closed_band_counterexample:
  "spec_in_band 400 10 390
   \<and> vehicle_counter (detect_vehicles 720 []
        \<lparr>matches = [(0, 390)], vehicle_counter = 0, line_height = 400,
         min_contour_width = 40, min_contour_height = 40, offset = 10\<rparr>) = 0
   \<and> matches (detect_vehicles 720 []
        \<lparr>matches = [(0, 390)], vehicle_counter = 0, line_height = 400,
         min_contour_width = 40, min_contour_height = 40, offset = 10\<rparr>) = [(0, 390)]"
  by (simp add: spec_in_band_def detect_vehicles_def effective_line_def)

text \<open>
  C5 (amended): a tracked centroid is counted exactly when its y-coordinate lies strictly
  between \<open>line_y - offset\<close> and \<open>line_y + offset\<close>, where \<open>line_y\<close> is the line that is drawn.
  The counter grows by the number of such centroids among the old entries and the new
  centroids; exactly these are dropped, and all others are carried over in their order.
\<close>

theorem detect_vehicles_counts_open_band:
  "vehicle_counter (detect_vehicles frame_h rects s) =
     vehicle_counter s
     + int (length (filter (in_open_band (effective_line frame_h s) (offset s))
         (matches s @ valid_centroids (min_contour_width s) (min_contour_height s) rects)))
   \<and> matches (detect_vehicles frame_h rects s) =
     filter (\<lambda>p. \<not> in_open_band (effective_line frame_h s) (offset s) p)
       (matches s @ valid_centroids (min_contour_width s) (min_contour_height s) rects)"
  by (simp add: detect_vehicles_def Let_def append_centroids_eq crossing_loop_eq)

subsection \<open>Detector and association\<close>

lemma record_position_counted:
  "counted (record_position now tv tr) = flag_of tv (fst tr)"
  by (cases tr; cases "tv (fst tr)") (simp_all add: record_position_def flag_of_def Let_def split: prod.splits)

lemma track_step_other:
  "j \<noteq> fst tr \<Longrightarrow> fst (track_step now lh off (tv, vc) tr) j = tv j"
  by (simp add: track_step_def Let_def)

lemma track_step_mono:
  "flag_of tv j \<Longrightarrow> flag_of (fst (track_step now lh off (tv, vc) tr)) j"
  by (cases "j = fst tr") (simp_all add: track_step_def Let_def flag_of_def record_position_counted)

lemma track_step_count:
  "snd (track_step now lh off (tv, vc) tr) =
     vc + (if flag_of (fst (track_step now lh off (tv, vc) tr)) (fst tr) \<and> \<not> flag_of tv (fst tr) then 1 else 0)"
  by (simp add: track_step_def Let_def flag_of_def record_position_counted)

lemma newly_compose:
  assumes ab: "\<And>j. A j \<Longrightarrow> B j" and bc: "\<And>j. B j \<Longrightarrow> C j"
    and f1: "finite {j. B j \<and> \<not> A j}" and f2: "finite {j. C j \<and> \<not> B j}"
  shows "card {j. C j \<and> \<not> A j} = card {j. B j \<and> \<not> A j} + card {j. C j \<and> \<not> B j}"
proof -
  have "{j. C j \<and> \<not> A j} = {j. B j \<and> \<not> A j} \<union> {j. C j \<and> \<not> B j}"
    using ab bc by blast
  moreover have "{j. B j \<and> \<not> A j} \<inter> {j. C j \<and> \<not> B j} = {}"
    by blast
  ultimately show ?thesis
    using f1 f2 by (simp add: card_Un_disjoint)
qed

lemma track_step_newly:
  "{j. flag_of (fst (track_step now lh off (tv, vc) tr)) j \<and> \<not> flag_of tv j} \<subseteq> {fst tr}"
proof
  fix j
  assume "j \<in> {j. flag_of (fst (track_step now lh off (tv, vc) tr)) j \<and> \<not> flag_of tv j}"
  then have c: "flag_of (fst (track_step now lh off (tv, vc) tr)) j" and n: "\<not> flag_of tv j"
    by simp_all
  have "j = fst tr"
  proof (rule ccontr)
    assume "j \<noteq> fst tr"
    then have "fst (track_step now lh off (tv, vc) tr) j = tv j"
      by (rule track_step_other)
    with c n show False by (simp add: flag_of_def)
  qed
  then show "j \<in> {fst tr}" by simp
qed

lemma track_step_card:
  "snd (track_step now lh off (tv, vc) tr) =
     vc + int (card {j. flag_of (fst (track_step now lh off (tv, vc) tr)) j \<and> \<not> flag_of tv j})"
proof (cases "flag_of (fst (track_step now lh off (tv, vc) tr)) (fst tr) \<and> \<not> flag_of tv (fst tr)")
  case True
  have e: "{j. flag_of (fst (track_step now lh off (tv, vc) tr)) j \<and> \<not> flag_of tv j} = {fst tr}"
    using True track_step_newly [of now lh off tv vc tr] by blast
  have "snd (track_step now lh off (tv, vc) tr) = vc + 1"
    by (subst track_step_count) (use True in simp)
  then show ?thesis
    by (simp add: e)
next
  case False
  have e: "{j. flag_of (fst (track_step now lh off (tv, vc) tr)) j \<and> \<not> flag_of tv j} = {}"
    using False track_step_newly [of now lh off tv vc tr] by blast
  have "snd (track_step now lh off (tv, vc) tr) = vc"
    by (subst track_step_count) (use False in auto)
  then show ?thesis
    by (simp add: e)
qed

lemma fold_tracks:
  "(\<forall>j. flag_of tv j \<longrightarrow> flag_of (fst (fold (\<lambda>tr st. track_step now lh off st tr) tracks (tv, vc))) j)
   \<and> {j. flag_of (fst (fold (\<lambda>tr st. track_step now lh off st tr) tracks (tv, vc))) j \<and> \<not> flag_of tv j}
       \<subseteq> fst ` set tracks
   \<and> snd (fold (\<lambda>tr st. track_step now lh off st tr) tracks (tv, vc)) =
       vc + int (card {j. flag_of (fst (fold (\<lambda>tr st. track_step now lh off st tr) tracks (tv, vc))) j
                          \<and> \<not> flag_of tv j})"
proof (induction tracks arbitrary: tv vc)
  case Nil
  show ?case by simp
next
  case (Cons tr tracks)
  obtain tv1 vc1 where s1: "track_step now lh off (tv, vc) tr = (tv1, vc1)"
    by (cases "track_step now lh off (tv, vc) tr")
  let ?r = "fold (\<lambda>tr st. track_step now lh off st tr) tracks (tv1, vc1)"
  have m1: "\<And>j. flag_of tv j \<Longrightarrow> flag_of tv1 j"
    using track_step_mono [of tv _ now lh off vc tr] s1 by simp
  have n1: "{j. flag_of tv1 j \<and> \<not> flag_of tv j} \<subseteq> {fst tr}"
    using track_step_newly [of now lh off tv vc tr] s1 by simp
  have c1: "vc1 = vc + int (card {j. flag_of tv1 j \<and> \<not> flag_of tv j})"
    using track_step_card [of now lh off tv vc tr] s1 by simp
  have m2: "\<And>j. flag_of tv1 j \<Longrightarrow> flag_of (fst ?r) j"
    and n2: "{j. flag_of (fst ?r) j \<and> \<not> flag_of tv1 j} \<subseteq> fst ` set tracks"
    and c2: "snd ?r = vc1 + int (card {j. flag_of (fst ?r) j \<and> \<not> flag_of tv1 j})"
    using Cons.IH [of tv1 vc1] by blast+
  have f1: "finite {j. flag_of tv1 j \<and> \<not> flag_of tv j}"
    using n1 by (rule finite_subset) simp
  have f2: "finite {j. flag_of (fst ?r) j \<and> \<not> flag_of tv1 j}"
    using n2 by (rule finite_subset) simp
  have card: "card {j. flag_of (fst ?r) j \<and> \<not> flag_of tv j} =
      card {j. flag_of tv1 j \<and> \<not> flag_of tv j} + card {j. flag_of (fst ?r) j \<and> \<not> flag_of tv1 j}"
    using m1 m2 f1 f2 by (rule newly_compose)
  have sub: "{j. flag_of (fst ?r) j \<and> \<not> flag_of tv j} \<subseteq> fst ` set (tr # tracks)"
    using n1 n2 by auto
  show ?case
    using m1 m2 sub card c1 c2 by (simp add: s1)
qed

lemma is_counted_flag_of: "is_counted s = flag_of (tracked_vehicles s)"
  by (rule ext) (simp add: is_counted_def flag_of_def)

lemma process_frame_facts:
  "(\<forall>j. is_counted s j \<longrightarrow> is_counted (process_frame fr s) j)
   \<and> {j. is_counted (process_frame fr s) j \<and> \<not> is_counted s j} \<subseteq> set (frame_ids fr)
   \<and> vehicle_count (process_frame fr s) =
       vehicle_count s + int (card {j. is_counted (process_frame fr s) j \<and> \<not> is_counted s j})"
proof (cases "frame_ok fr")
  case False
  then show ?thesis by (simp add: process_frame_def)
next
  case True
  show ?thesis
  proof (cases "tracks_result fr")
    case (Inl e)
    with True show ?thesis by (simp add: process_frame_def)
  next
    case (Inr tracks)
    show ?thesis
    proof (cases "f_line_height fr")
      case None
      with True Inr show ?thesis by (simp add: process_frame_def)
    next
      case (Some line_h)
      let ?r = "fold (\<lambda>tr st. track_step (f_time fr) line_h (f_offset fr) st tr) tracks
                  (tracked_vehicles s, vehicle_count s)"
      have pf: "process_frame fr s = s\<lparr>tracked_vehicles := fst ?r, vehicle_count := snd ?r\<rparr>"
        using True Inr Some
        by (simp add: process_frame_def process_tracks_def split: prod.splits)
      show ?thesis
        using fold_tracks [of "tracked_vehicles s" "f_time fr" line_h "f_offset fr" tracks
            "vehicle_count s"]
        by (simp add: pf is_counted_flag_of frame_ids_def Inr)
    qed
  qed
qed

lemma process_frames_facts:
  "(\<forall>j. is_counted s j \<longrightarrow> is_counted (process_frames frs s) j)
   \<and> {j. is_counted (process_frames frs s) j \<and> \<not> is_counted s j} \<subseteq> set (run_ids frs)
   \<and> vehicle_count (process_frames frs s) =
       vehicle_count s + int (card {j. is_counted (process_frames frs s) j \<and> \<not> is_counted s j})"
proof (induction frs arbitrary: s)
  case Nil
  show ?case by (simp add: process_frames_def)
next
  case (Cons fr frs)
  let ?s1 = "process_frame fr s"
  let ?r = "process_frames frs ?s1"
  have r: "process_frames (fr # frs) s = ?r"
    by (simp add: process_frames_def)
  have m1: "\<And>j. is_counted s j \<Longrightarrow> is_counted ?s1 j"
    and n1: "{j. is_counted ?s1 j \<and> \<not> is_counted s j} \<subseteq> set (frame_ids fr)"
    and c1: "vehicle_count ?s1 =
       vehicle_count s + int (card {j. is_counted ?s1 j \<and> \<not> is_counted s j})"
    using process_frame_facts [of s fr] by blast+
  have m2: "\<And>j. is_counted ?s1 j \<Longrightarrow> is_counted ?r j"
    and n2: "{j. is_counted ?r j \<and> \<not> is_counted ?s1 j} \<subseteq> set (run_ids frs)"
    and c2: "vehicle_count ?r =
       vehicle_count ?s1 + int (card {j. is_counted ?r j \<and> \<not> is_counted ?s1 j})"
    using Cons.IH [of ?s1] by blast+
  have f1: "finite {j. is_counted ?s1 j \<and> \<not> is_counted s j}"
    using n1 by (rule finite_subset) simp
  have f2: "finite {j. is_counted ?r j \<and> \<not> is_counted ?s1 j}"
    using n2 by (rule finite_subset) simp
  have card: "card {j. is_counted ?r j \<and> \<not> is_counted s j} =
      card {j. is_counted ?s1 j \<and> \<not> is_counted s j}
      + card {j. is_counted ?r j \<and> \<not> is_counted ?s1 j}"
    using m1 m2 f1 f2 by (rule newly_compose)
  have sub: "{j. is_counted ?r j \<and> \<not> is_counted s j} \<subseteq> set (run_ids (fr # frs))"
    using n1 n2 by (auto simp: run_ids_def)
  show ?case
    unfolding r using m1 m2 sub card c1 c2 by simp
qed

lemma length_filter_remdups:
  "S \<subseteq> set xs \<Longrightarrow> S = {j. P j} \<Longrightarrow> length (filter P (remdups xs)) = card S"
proof -
  assume a: "S \<subseteq> set xs" and b: "S = {j. P j}"
  have "distinct (filter P (remdups xs))" by simp
  then have "length (filter P (remdups xs)) = card (set (filter P (remdups xs)))"
    by (rule distinct_card [symmetric])
  also have "set (filter P (remdups xs)) = S"
    using a b by auto
  finally show ?thesis .
qed

text \<open>
  C8: within a session without a reset, an identity that is marked as counted stays
  marked as counted whatever frames follow, and the vehicle count grows by exactly the
  number of distinct identities whose flag went from false to true: every track adds at
  most one to the count. Only \<open>reset_count\<close> empties the dictionary.
\<close>

theorem counted_at_most_once:
  "(is_counted s i \<longrightarrow> is_counted (process_frames frs s) i)
   \<and> vehicle_count (process_frames frs s) =
       vehicle_count s
       + int (length (filter (\<lambda>j. is_counted (process_frames frs s) j \<and> \<not> is_counted s j)
                (remdups (run_ids frs))))
   \<and> tracked_vehicles (reset_count s) = Map.empty"
proof -
  have "length (filter (\<lambda>j. is_counted (process_frames frs s) j \<and> \<not> is_counted s j)
                (remdups (run_ids frs)))
        = card {j. is_counted (process_frames frs s) j \<and> \<not> is_counted s j}"
    using process_frames_facts [of s frs] by (intro length_filter_remdups) blast+
  then show ?thesis
    using process_frames_facts [of s frs] by (simp add: reset_count_def)
qed

lemma crossing_session:
  "process_frames [frame_at 300, frame_at 500] tracker0 =
     \<lparr>tracked_vehicles = [7 \<mapsto> \<lparr>positions = [(10, 300), (10, 500)], counted = True,
        class_id = 3, first_seen = 0\<rparr>], vehicle_count = 1\<rparr>"
  by (simp add: process_frames_def process_frame_def process_tracks_def track_step_def
      record_position_def frame_at_def tracker0_def Let_def)

lemma oscillating_session:
  "vehicle_count (process_frames [frame_at 300, frame_at 500, frame_at 300, frame_at 500]
     (process_frames [frame_at 300, frame_at 500] tracker0)) = 1"
  by (simp add: crossing_session)
     (simp add: process_frames_def process_frame_def process_tracks_def track_step_def
      record_position_def frame_at_def Let_def)

theorem counted_at_most_once_witness:
  "is_counted (process_frames [frame_at 300, frame_at 500] tracker0) 7
   \<and> is_counted (process_frames [frame_at 300, frame_at 500, frame_at 300, frame_at 500]
        (process_frames [frame_at 300, frame_at 500] tracker0)) 7
   \<and> vehicle_count (process_frames [frame_at 300, frame_at 500, frame_at 300, frame_at 500]
        (process_frames [frame_at 300, frame_at 500] tracker0)) = 1"
proof -
  have a: "is_counted (process_frames [frame_at 300, frame_at 500] tracker0) 7"
    by (simp add: crossing_session is_counted_def)
  have b: "is_counted (process_frames [frame_at 300, frame_at 500, frame_at 300, frame_at 500]
        (process_frames [frame_at 300, frame_at 500] tracker0)) 7"
    using counted_at_most_once [of "process_frames [frame_at 300, frame_at 500] tracker0" 7
        "[frame_at 300, frame_at 500, frame_at 300, frame_at 500]"] a
    by blast
  show ?thesis
    using a b oscillating_session by simp
qed

subsection \<open>Occupancy\<close>






subsection \<open>Groups\<close>

lemma count_members_eq:
  "count_members img s ms c = c + int (length (filter (member_occupied img s) ms))"
  by (induction img s ms c rule: count_members.induct)
     (simp_all add: member_occupied_def split: prod.splits)

lemma map_of_map_entry:
  "map_of (map (\<lambda>(k, d). (k, f d)) xs) k = map_option f (map_of xs k)"
  by (induction xs) auto

text \<open>
  C7: for a group entry with \<open>n \<ge> 1\<close> members of which \<open>k\<close> are classified occupied, the pass
  sets \<open>occupied\<close> to true exactly when \<open>k > n / 2\<close>, that is when \<open>2 k > n\<close>; every entry of
  \<open>parking_data\<close> is rewritten by this rule.
\<close>

theorem group_majority_vote:
  assumes "is_group d" and "member_spaces d = Some ms" and "ms \<noteq> []"
  shows "occupied (group_status img s d) =
           (rat_of_nat (length (filter (member_occupied img s) ms)) > rat_of_nat (length ms) / 2)
         \<and> occupied (group_status img s d) =
           (2 * length (filter (member_occupied img s) ms) > length ms)
         \<and> map_of (parking_data (process_group_status img s)) gid =
           map_option (group_status img s) (map_of (parking_data s) gid)"
proof -
  have a: "occupied (group_status img s d) =
           (rat_of_nat (length (filter (member_occupied img s) ms)) > rat_of_nat (length ms) / 2)"
    using assms by (simp add: group_status_def Let_def count_members_eq)
  have "(rat_of_nat (length (filter (member_occupied img s) ms)) > rat_of_nat (length ms) / 2)
        = (rat_of_nat (length ms) < rat_of_nat (2 * length (filter (member_occupied img s) ms)))"
    by (simp add: field_simps)
  also have "\<dots> = (2 * length (filter (member_occupied img s) ms) > length ms)"
    by (simp only: of_nat_less_iff)
  finally have b: "(rat_of_nat (length (filter (member_occupied img s) ms)) > rat_of_nat (length ms) / 2)
        = (2 * length (filter (member_occupied img s) ms) > length ms)" .
  have c: "map_of (parking_data (process_group_status img s)) gid =
           map_option (group_status img s) (map_of (parking_data s) gid)"
    by (simp add: process_group_status_def map_of_map_entry)
  show ?thesis using a b c by simp
qed

lemma member_occupied_lot4:
  "member_occupied frame10 lot4 0" "member_occupied frame10 lot4 (Suc 0)"
  "\<not> member_occupied frame10 lot4 2" "\<not> member_occupied frame10 lot4 3"
  by code_simp+

text \<open>
  The three groups of the specification: free, free, occupied; occupied, occupied, free;
  and the tie of two out of four.
\<close>

theorem group_majority_vote_witness:
  "occupied (group_status frame10 lot4 (group_of [2, 3, 0])) = False
   \<and> occupied (group_status frame10 lot4 (group_of [0, 1, 2])) = True
   \<and> occupied (group_status frame10 lot4 (group_of [0, 1, 2, 3])) = False"
proof -
  have g: "is_group (group_of ms)" "member_spaces (group_of ms) = Some ms" for ms
    by (simp_all add: group_of_def)
  have a: "occupied (group_status frame10 lot4 (group_of [2, 3, 0])) = False"
    using group_majority_vote [OF g(1) g(2), of "[2, 3, 0]" frame10 lot4]
    by (simp add: member_occupied_lot4)
  have b: "occupied (group_status frame10 lot4 (group_of [0, 1, 2])) = True"
    using group_majority_vote [OF g(1) g(2), of "[0, 1, 2]" frame10 lot4]
    by (simp add: member_occupied_lot4)
  have c: "occupied (group_status frame10 lot4 (group_of [0, 1, 2, 3])) = False"
    using group_majority_vote [OF g(1) g(2), of "[0, 1, 2, 3]" frame10 lot4]
    by (simp add: member_occupied_lot4)
  show ?thesis using a b c by simp
qed

subsection \<open>Time stamps\<close>

lemma map_of_dict_set: "map_of (dict_set k v d) = (map_of d)(k \<mapsto> v)"
  by (induction d) (auto simp: fun_eq_iff)

lemma stamp_kept_refl: "stamp_kept pd pd"
  by (simp add: stamp_kept_def)

lemma stamp_kept_trans: "stamp_kept a b \<Longrightarrow> stamp_kept b c \<Longrightarrow> stamp_kept a c"
  unfolding stamp_kept_def by (metis)

lemma stamp_kept_new: "map_of pd k = None \<Longrightarrow> stamp_kept pd (dict_set k v pd)"
  by (auto simp: stamp_kept_def map_of_dict_set)

lemma stamp_kept_upd:
  "map_of pd k = Some d \<Longrightarrow> last_state_change v = last_state_change d \<Longrightarrow>
     stamp_kept pd (dict_set k v pd)"
  by (auto simp: stamp_kept_def map_of_dict_set)

lemma slots_loop_stamp: "stamp_kept pd (slots_loop img thr now i ps pd)"
proof (induction img thr now i ps pd rule: slots_loop.induct)
  case (1 img thr now i pd)
  show ?case by (simp add: stamp_kept_refl)
next
  case (2 img thr now i x y w h ps pd)
  show ?case
  proof (cases "within_bounds img (x, y, w, h)")
    case False
    then show ?thesis using 2 by (simp add: Let_def)
  next
    case True
    show ?thesis
    proof (cases "map_of pd (space_id_of img i (x, y, w, h))")
      case None
      have "stamp_kept pd (dict_set (space_id_of img i (x, y, w, h))
          \<lparr>position = (x, y, w, h), occupied = (count_non_zero img x y w h \<ge> thr),
           vehicle_id = None, last_state_change = now, distance_to_entrance = Some (x + y),
           section_tag = section_of img x y, in_group = False, group_id = None,
           is_group = False, member_spaces = None, manually_set = False\<rparr> pd)"
        using None by (rule stamp_kept_new)
      then show ?thesis
        using 2(1) [OF refl refl True refl refl None] True None
        by (simp add: Let_def) (erule stamp_kept_trans, assumption)
    next
      case (Some data)
      show ?thesis
      proof (cases "manually_set data")
        case True
        then show ?thesis
          using 2(3) [OF refl refl \<open>within_bounds img (x, y, w, h)\<close> refl refl Some] Some
            \<open>within_bounds img (x, y, w, h)\<close>
          by (simp add: Let_def)
      next
        case False
        have "stamp_kept pd (dict_set (space_id_of img i (x, y, w, h))
            (data\<lparr>occupied := (count_non_zero img x y w h \<ge> thr)\<rparr>) pd)"
          using Some by (rule stamp_kept_upd) simp
        then show ?thesis
          using 2(2) [OF refl refl \<open>within_bounds img (x, y, w, h)\<close> refl refl Some] Some False
            \<open>within_bounds img (x, y, w, h)\<close>
          by (simp add: Let_def) (erule stamp_kept_trans, assumption)
      qed
    qed
  qed
qed

lemma mark_members_stamp: "stamp_kept pd (mark_members img ps gid members pd)"
proof (induction img ps gid members pd rule: mark_members.induct)
  case (1 img ps gid pd)
  show ?case by (simp add: stamp_kept_refl)
next
  case (2 img ps gid i members pd)
  show ?case
  proof (cases "i < length ps")
    case False
    then show ?thesis using 2 by simp
  next
    case True
    show ?thesis
    proof (cases "map_of pd (space_id_of img i (ps ! i))")
      case None
      then show ?thesis
        using 2(1) [OF True refl None] True by (simp add: Let_def)
    next
      case (Some data)
      have "stamp_kept pd (dict_set (space_id_of img i (ps ! i))
          (data\<lparr>in_group := True, group_id := Some gid\<rparr>) pd)"
        using Some by (rule stamp_kept_upd) simp
      then show ?thesis
        using 2(2) [OF True refl Some] True Some
        by (simp add: Let_def) (erule stamp_kept_trans, assumption)
    qed
  qed
qed

lemma mark_groups_stamp: "stamp_kept pd (mark_groups img ps snapshot pd)"
proof (induction img ps snapshot pd rule: mark_groups.induct)
  case (1 img ps pd)
  show ?case by (simp add: stamp_kept_refl)
next
  case (2 img ps gid data snapshot pd)
  show ?case
  proof (cases "is_group data")
    case False
    then show ?thesis using 2 by simp
  next
    case True
    show ?thesis
    proof (cases "member_spaces data")
      case None
      then show ?thesis using 2(1) [OF True None] True by simp
    next
      case (Some members)
      show ?thesis
        using 2(2) [OF True Some] True Some
          stamp_kept_trans [OF mark_members_stamp [of pd img ps gid members]]
        by simp
    qed
  qed
qed

lemma group_status_stamp: "last_state_change (group_status img s d) = last_state_change d"
  by (simp add: group_status_def Let_def split: option.splits)

lemma process_group_status_stamp:
  "stamp_kept (parking_data s) (parking_data (process_group_status img s))"
  by (auto simp: stamp_kept_def process_group_status_def map_of_map_entry group_status_stamp)

lemma check_parking_space_data: "parking_data (snd (check_parking_space img s)) = parking_data s"
  by (simp add: check_parking_space_def split: prod.splits)

lemma update_slots_stamp:
  "stamp_kept (parking_data s) (parking_data (update_individual_slots_in_groups img now s))"
  unfolding update_individual_slots_in_groups_def Let_def
  using stamp_kept_trans [OF slots_loop_stamp mark_groups_stamp] by simp

text \<open>
  A detection pass of \<open>ParkingManager\<close> never writes \<open>last_state_change\<close> of a record that
  exists: the time is stored only when a record is created.
\<close>

lemma detection_pass_keeps_stamps:
  "stamp_kept (parking_data s) (parking_data (update_allocation_status img now s))"
proof -
  let ?s1 = "snd (check_parking_space img s)"
  let ?s2 = "update_individual_slots_in_groups img now ?s1"
  have "stamp_kept (parking_data s) (parking_data ?s2)"
    using update_slots_stamp [of ?s1 img now] by (simp add: check_parking_space_data)
  then show ?thesis
    unfolding update_allocation_status_def
    by (rule stamp_kept_trans) (rule process_group_status_stamp)
qed

text \<open>
  C3 at a concrete pass: the space record \<open>S1-A1\<close> and the group record \<open>Group_1\<close> are free
  with time stamp 0; the pass at time 1000 finds both occupied, flips both flags and leaves
  both time stamps at 0.
\<close>

theorem detection_pass_flip_keeps_last_state_change:
  "map_option (\<lambda>d. (occupied d, last_state_change d)) (map_of (parking_data lot4_tracked) ''S1-A1'')
     = Some (False, 0)
   \<and> map_option (\<lambda>d. (occupied d, last_state_change d))
       (map_of (parking_data (update_allocation_status frame10 1000 lot4_tracked)) ''S1-A1'')
     = Some (True, 0)
   \<and> map_option (\<lambda>d. (occupied d, last_state_change d)) (map_of (parking_data lot4_tracked) ''Group_1'')
     = Some (False, 0)
   \<and> map_option (\<lambda>d. (occupied d, last_state_change d))
       (map_of (parking_data (update_allocation_status frame10 1000 lot4_tracked)) ''Group_1'')
     = Some (True, 0)"
  by code_simp

text \<open>
  The visualizer's update does what the claim says: the stamp becomes the current time
  exactly when the flag flips.
\<close>

lemma update_parking_status_one:
  "pd k = Some d \<Longrightarrow>
     map_option (\<lambda>e. (v_occupied e, v_last_state_change e))
       (update_parking_status t [(k, b)] pd k)
     = Some (b, if v_occupied d \<noteq> b then t else v_last_state_change d)"
  by (simp add: Let_def)

subsection \<open>Allocation\<close>



















subsection \<open>Feedback and retraining\<close>

lemma add_feedback_below_batch:
  assumes "\<not> lock_held e"
    and "find (\<lambda>entry. al_space_id entry = space_id) (rev (allocation_history e)) = Some al"
    and "length (feedback_data e) < 9"
  shows "fst (add_feedback lr now space_id vs ok e) = Returns ()
    \<and> feedback_data (snd (add_feedback lr now space_id vs ok e)) =
        feedback_data e @ [\<lparr>fb_timestamp = now, fb_space_id = space_id,
          fb_section = get_section_from_space_id space_id, fb_vehicle_size = vs,
          fb_features = al_features al, fb_successful = (if ok then 1 else 0)\<rparr>]
    \<and> model (snd (add_feedback lr now space_id vs ok e)) = model e
    \<and> printed (snd (add_feedback lr now space_id vs ok e)) = printed e"
  using assms by (simp add: add_feedback_def Let_def)

lemma add_feedback_at_batch_blocks:
  assumes "\<not> lock_held e"
    and "find (\<lambda>entry. al_space_id entry = space_id) (rev (allocation_history e)) = Some al"
    and "length (feedback_data e) \<ge> 9"
  shows "fst (add_feedback lr now space_id vs ok e) = Blocks
    \<and> model (snd (add_feedback lr now space_id vs ok e)) = model e
    \<and> model_file (snd (add_feedback lr now space_id vs ok e)) = model_file e
    \<and> printed (snd (add_feedback lr now space_id vs ok e)) = printed e
    \<and> feedback_data (snd (add_feedback lr now space_id vs ok e)) \<noteq> []"
  using assms by (simp add: add_feedback_def retrain_model_def Let_def)



text \<open>
  C1 at a concrete run: nine calls of \<open>add_feedback\<close> for an allocated space return, each
  with one more entry in the buffer, and nothing is retrained. The tenth call appends its
  entry and then never returns: \<open>_retrain_model\<close> waits for the lock that \<open>add_feedback\<close>
  itself holds. The model in memory and on disk is the old one, nothing was printed, the
  buffer holds ten entries and the lock stays taken.
\<close>

theorem tenth_feedback_blocks:
  "fst (add_feedback_times 9 flat_learner ''S1-A'' engine_with_history) = Returns ()
   \<and> length (feedback_data (snd (add_feedback_times 9 flat_learner ''S1-A'' engine_with_history))) = 9
   \<and> model (snd (add_feedback_times 9 flat_learner ''S1-A'' engine_with_history)) = 0
   \<and> printed (snd (add_feedback_times 9 flat_learner ''S1-A'' engine_with_history)) = []
   \<and> fst (add_feedback_times 10 flat_learner ''S1-A'' engine_with_history) = Blocks
   \<and> length (feedback_data (snd (add_feedback_times 10 flat_learner ''S1-A'' engine_with_history))) = 10
   \<and> model (snd (add_feedback_times 10 flat_learner ''S1-A'' engine_with_history)) = 0
   \<and> model_file (snd (add_feedback_times 10 flat_learner ''S1-A'' engine_with_history)) = Some 0
   \<and> printed (snd (add_feedback_times 10 flat_learner ''S1-A'' engine_with_history)) = []
   \<and> lock_held (snd (add_feedback_times 10 flat_learner ''S1-A'' engine_with_history))"
  by code_simp




end
